theory Spec2Isabelle
  imports Main
begin

section \<open>The image transformer component (src/components/image-transformer.tsx)\<close>

text \<open>
  The component is a React function component. Its \<^verbatim>\<open>useState\<close> cells are the fields of
  one record; every \<^verbatim>\<open>setX\<close> call is a record update. The browser around it (the alert
  dialog, the console, the interval timers, the remote client's three calls) is made
  explicit: calls are appended to a log of effects, live interval timers are a list of
  handles, and an \<^verbatim>\<open>async\<close> function is cut at each \<^verbatim>\<open>await\<close> into the part that runs up to
  the call and the part that runs when the call settles.
\<close>

subsection \<open>Types declared in the source\<close>

record ResponseData =
  download_url :: string
  generation_status :: string

text \<open>
  The source casts what the remote call resolves with to \<^verbatim>\<open>FlowscaleResponse\<close> without a
  check, so a malformed answer reaches the code: \<open>data = None\<close> is an answer whose
  \<^verbatim>\<open>data\<close> is null or undefined, and the resolved value as a whole is an option for the
  same reason (see \<open>generateImage_resume\<close>).
\<close>

record FlowscaleResponse =
  status :: string
  runId :: string
  data :: "ResponseData option"

record RunOutput =
  filename :: string
  url :: string

record Run =
  run_id :: string
  run_status :: string
  outputs :: "RunOutput list"

record RunsData =
  group_id :: string
  run_count :: nat
  runs :: "Run list"

record RunsResponse =
  runs_status :: string
  runs_data :: RunsData

text \<open>A browser \<^verbatim>\<open>File\<close>: the component reads only its size.\<close>

record File =
  file_name :: string
  file_size :: nat

text \<open>
  The value a remote call rejects with, or a \<^verbatim>\<open>throw\<close> raises; the source types it
  \<^verbatim>\<open>any\<close>. The handlers only log it and read \<^verbatim>\<open>error.message\<close>, so three kinds are told
  apart: \<open>Nullish\<close> is \<^verbatim>\<open>null\<close> or \<^verbatim>\<open>undefined\<close>, on which reading a property throws;
  \<open>Thrown m\<close> is any other value, whose \<^verbatim>\<open>message\<close> is a string (\<open>Some\<close>) or is not
  (\<open>None\<close>); \<open>TypeError p\<close> is the error the engine raises when the property \<open>p\<close> is read
  from \<^verbatim>\<open>null\<close> or \<^verbatim>\<open>undefined\<close>. The message of such a TypeError is the engine's wording:
  it names the property and the value, and in no engine contains "timed out".
\<close>

datatype thrown = Nullish | Thrown "string option" | TypeError string

text \<open>How an awaited call settles.\<close>

datatype 'a outcome = Resolved 'a | Rejected thrown

subsection \<open>State of the component and of the browser around it\<close>

record component_state =
  inputFile :: "File option"
  promptText :: string
  isLoading :: bool
  uploadProgress :: int
  outputImageUrl :: string
  currentRunId :: "string option"
  pastRuns :: "Run list"
  isCollapsibleOpen :: bool
  previewUrl :: string

datatype effect =
    Alert string
  | ConsoleError string thrown
  | ExecuteWorkflowAsync string File string
  | CancelRun string
  | GetRuns
  | SetInterval nat nat
  | ClearInterval nat
  | UnhandledRejection thrown

text \<open>
  The continuations an \<^verbatim>\<open>await\<close> leaves behind: \<^verbatim>\<open>generateImage\<close> waiting for
  \<^verbatim>\<open>executeWorkflowAsync\<close>, \<^verbatim>\<open>generateImage\<close> waiting for its call of \<^verbatim>\<open>fetchPastRuns\<close>,
  \<^verbatim>\<open>handleCancel\<close> waiting for \<^verbatim>\<open>cancelRun\<close>, and the \<^verbatim>\<open>fetchPastRuns\<close> of the mount effect
  waiting for \<^verbatim>\<open>getRuns\<close>. None of them reads a local variable after its await.
\<close>

datatype task = ExecutePending | HistoryPending | CancelPending | FetchPending

text \<open>
  What a piece of an async function ends with: it returned, it threw (the promise
  rejects, and no caller handles it), or it is suspended at an await.
\<close>

datatype completion = Fulfilled | Threw thrown | Awaits task

record world =
  comp :: component_state
  intervals :: "nat list"
  next_interval :: nat
  effects :: "effect list"
  pending :: "task list"

definition initial_state :: component_state where
  "initial_state =
     \<lparr>inputFile = None, promptText = [], isLoading = False, uploadProgress = 0,
      outputImageUrl = [], currentRunId = None, pastRuns = [],
      isCollapsibleOpen = False, previewUrl = []\<rparr>"

definition initial_world :: world where
  "initial_world =
     \<lparr>comp = initial_state, intervals = [], next_interval = 1, effects = [], pending = []\<rparr>"

subsection \<open>State setters and browser calls\<close>

definition setInputFile :: "File option \<Rightarrow> world \<Rightarrow> world" where
  "setInputFile v w = w\<lparr>comp := (comp w)\<lparr>inputFile := v\<rparr>\<rparr>"

definition setPromptText :: "string \<Rightarrow> world \<Rightarrow> world" where
  "setPromptText v w = w\<lparr>comp := (comp w)\<lparr>promptText := v\<rparr>\<rparr>"

definition setIsLoading :: "bool \<Rightarrow> world \<Rightarrow> world" where
  "setIsLoading v w = w\<lparr>comp := (comp w)\<lparr>isLoading := v\<rparr>\<rparr>"

definition setUploadProgress :: "int \<Rightarrow> world \<Rightarrow> world" where
  "setUploadProgress v w = w\<lparr>comp := (comp w)\<lparr>uploadProgress := v\<rparr>\<rparr>"

definition setOutputImageUrl :: "string \<Rightarrow> world \<Rightarrow> world" where
  "setOutputImageUrl v w = w\<lparr>comp := (comp w)\<lparr>outputImageUrl := v\<rparr>\<rparr>"

definition setCurrentRunId :: "string option \<Rightarrow> world \<Rightarrow> world" where
  "setCurrentRunId v w = w\<lparr>comp := (comp w)\<lparr>currentRunId := v\<rparr>\<rparr>"

definition setPastRuns :: "Run list \<Rightarrow> world \<Rightarrow> world" where
  "setPastRuns v w = w\<lparr>comp := (comp w)\<lparr>pastRuns := v\<rparr>\<rparr>"

definition setPreviewUrl :: "string \<Rightarrow> world \<Rightarrow> world" where
  "setPreviewUrl v w = w\<lparr>comp := (comp w)\<lparr>previewUrl := v\<rparr>\<rparr>"

definition emit :: "effect \<Rightarrow> world \<Rightarrow> world" where
  "emit e w = w\<lparr>effects := effects w @ [e]\<rparr>"

definition clearInterval :: "nat \<Rightarrow> world \<Rightarrow> world" where
  "clearInterval interval w =
     emit (ClearInterval interval) (w\<lparr>intervals := removeAll interval (intervals w)\<rparr>)"

text \<open>\<^verbatim>\<open>String.prototype.includes\<close>: the search string occurs somewhere in the string.\<close>

fun starts_with :: "string \<Rightarrow> string \<Rightarrow> bool" where
  "starts_with s [] = True"
| "starts_with [] (c # t) = False"
| "starts_with (a # s) (c # t) = (a = c \<and> starts_with s t)"

fun js_includes :: "string \<Rightarrow> string \<Rightarrow> bool" where
  "js_includes [] t = (t = [])"
| "js_includes (a # s) t = (starts_with (a # s) t \<or> js_includes s t)"

subsection \<open>onDrop, handleRemoveImage\<close>

text \<open>The second argument is the URL that \<^verbatim>\<open>URL.createObjectURL(file)\<close> answers.\<close>

definition onDrop :: "File list \<Rightarrow> string \<Rightarrow> world \<Rightarrow> world" where
  "onDrop acceptedFiles objectUrl w =
     (case acceptedFiles of
        [] \<Rightarrow> emit (Alert ''File size must be less than 10MB'') w
      | file # rest \<Rightarrow>
          if file_size file \<le> 10 * 1024 * 1024
          then setPreviewUrl objectUrl (setInputFile (Some file) w)
          else emit (Alert ''File size must be less than 10MB'') w)"

definition handleRemoveImage :: "world \<Rightarrow> world" where
  "handleRemoveImage w = setPreviewUrl [] (setInputFile None w)"

subsection \<open>startProgressSimulation\<close>

text \<open>
  The function resets the progress and registers an interval timer of 500 ms. The
  handle is a local constant of the function: only the timer's own callback can clear
  it.
\<close>

definition startProgressSimulation :: "world \<Rightarrow> world" where
  "startProgressSimulation w =
     (let w1 = setUploadProgress 0 w;
          interval = next_interval w1
      in emit (SetInterval interval 500)
           (w1\<lparr>intervals := intervals w1 @ [interval], next_interval := interval + 1\<rparr>))"

text \<open>One firing of the timer \<open>interval\<close>: the updater passed to \<^verbatim>\<open>setUploadProgress\<close>.\<close>

definition interval_callback :: "nat \<Rightarrow> world \<Rightarrow> world" where
  "interval_callback interval w =
     (let prev = uploadProgress (comp w)
      in if prev \<ge> 95 then clearInterval interval w
         else setUploadProgress (prev + 5) w)"

subsection \<open>handleCancel\<close>

text \<open>
  \<^verbatim>\<open>if (currentRunId)\<close> is JavaScript truthiness: \<^verbatim>\<open>null\<close> and the empty string are
  both false.
\<close>

definition handleCancel_begin :: "world \<Rightarrow> completion \<times> world" where
  "handleCancel_begin w =
     (case currentRunId (comp w) of
        None \<Rightarrow> (Fulfilled, w)
      | Some rid \<Rightarrow>
          if rid = [] then (Fulfilled, w)
          else (Awaits CancelPending, emit (CancelRun rid) w))"

definition handleCancel_resume :: "unit outcome \<Rightarrow> world \<Rightarrow> completion \<times> world" where
  "handleCancel_resume settled w =
     (case settled of
        Resolved u \<Rightarrow>
          (Fulfilled, setUploadProgress 0 (setCurrentRunId None (setIsLoading False w)))
      | Rejected error \<Rightarrow>
          (Fulfilled, emit (ConsoleError ''Error cancelling run:'' error) w))"

subsection \<open>fetchPastRuns\<close>

definition fetchPastRuns_begin :: "world \<Rightarrow> completion \<times> world" where
  "fetchPastRuns_begin w = (Awaits FetchPending, emit GetRuns w)"

definition fetchPastRuns_resume :: "RunsResponse outcome \<Rightarrow> world \<Rightarrow> completion \<times> world" where
  "fetchPastRuns_resume settled w =
     (case settled of
        Resolved response \<Rightarrow> (Fulfilled, setPastRuns (runs (runs_data response)) w)
      | Rejected error \<Rightarrow>
          (Fulfilled, emit (ConsoleError ''Error fetching past runs:'' error) w))"

subsection \<open>generateImage\<close>

text \<open>The part up to \<^verbatim>\<open>await flowscale.executeWorkflowAsync(workflowId, inputs)\<close>.\<close>

definition generateImage_begin :: "string \<Rightarrow> world \<Rightarrow> completion \<times> world" where
  "generateImage_begin workflowId w =
     (case inputFile (comp w) of
        None \<Rightarrow> (Fulfilled, emit (Alert ''Please select an image first'') w)
      | Some file \<Rightarrow>
          (let prompt = promptText (comp w);
               w1 = startProgressSimulation (setIsLoading True w);
               w2 = setUploadProgress 0 (setOutputImageUrl [] w1)
           in (Awaits ExecutePending, emit (ExecuteWorkflowAsync workflowId file prompt) w2)))"

text \<open>
  The \<^verbatim>\<open>catch\<close> block. It logs the error and then evaluates \<^verbatim>\<open>error.message\<close>: for a
  null or undefined error that read throws, inside the handler, before any alert.
\<close>

definition generateImage_catch :: "thrown \<Rightarrow> world \<Rightarrow> completion \<times> world" where
  "generateImage_catch error w =
     (let w1 = emit (ConsoleError ''Error processing image:'' error) w
      in case error of
           Nullish \<Rightarrow> (Threw (TypeError ''message''), w1)
         | Thrown msg \<Rightarrow>
             if (case msg of None \<Rightarrow> False | Some m \<Rightarrow> js_includes m ''timed out'')
             then (Fulfilled,
                   emit (Alert ''Image processing took too long to complete. Please try again.'')
                     w1)
             else (Fulfilled, emit (Alert ''Error processing image. Please try again.'') w1)
         | TypeError p \<Rightarrow>
             (Fulfilled, emit (Alert ''Error processing image. Please try again.'') w1))"

text \<open>
  The \<^verbatim>\<open>finally\<close> block runs however the \<^verbatim>\<open>try\<close> and \<^verbatim>\<open>catch\<close> blocks ended, and keeps
  their completion: an error thrown by the \<^verbatim>\<open>catch\<close> block leaves the function after it.
\<close>

definition generateImage_finally :: "completion \<times> world \<Rightarrow> completion \<times> world" where
  "generateImage_finally cw =
     (case cw of (c, w) \<Rightarrow> (c, setCurrentRunId None (setIsLoading False w)))"

text \<open>
  The part that runs when \<^verbatim>\<open>executeWorkflowAsync\<close> has settled. On a null or undefined
  result, \<^verbatim>\<open>result.runId\<close> throws before any setter runs. The condition is
  \<^verbatim>\<open>result.status === 'success' && result.data.generation_status === 'success'\<close>: the
  second operand, and with it the read from \<^verbatim>\<open>result.data\<close>, is evaluated only when the
  first holds.
\<close>

definition generateImage_resume ::
    "FlowscaleResponse option outcome \<Rightarrow> world \<Rightarrow> completion \<times> world" where
  "generateImage_resume settled w =
     (case settled of
        Rejected error \<Rightarrow> generateImage_finally (generateImage_catch error w)
      | Resolved None \<Rightarrow> generateImage_finally (generateImage_catch (TypeError ''runId'') w)
      | Resolved (Some result) \<Rightarrow>
          (let w1 = setCurrentRunId (Some (runId result)) w
           in if status result = ''success''
              then (case data result of
                      None \<Rightarrow>
                        generateImage_finally
                          (generateImage_catch (TypeError ''generation_status'') w1)
                    | Some d \<Rightarrow>
                        if generation_status d = ''success''
                        then (let w2 = setOutputImageUrl (download_url d)
                                         (setUploadProgress 100 w1)
                              in (Awaits HistoryPending, snd (fetchPastRuns_begin w2)))
                        else generateImage_finally
                               (generateImage_catch (Thrown (Some ''Generation failed'')) w1))
              else generateImage_finally
                     (generateImage_catch (Thrown (Some ''Generation failed'')) w1)))"

text \<open>The part that runs when the awaited \<^verbatim>\<open>fetchPastRuns()\<close> has settled.\<close>

definition generateImage_after_fetch :: "RunsResponse outcome \<Rightarrow> world \<Rightarrow> completion \<times> world" where
  "generateImage_after_fetch settled w =
     (case fetchPastRuns_resume settled w of
        (Threw error, w1) \<Rightarrow> generateImage_finally (generateImage_catch error w1)
      | (c, w1) \<Rightarrow> generateImage_finally (c, w1))"

subsection \<open>The event loop\<close>

text \<open>
  JavaScript runs one handler or continuation at a time; between two of them React has
  rendered, so a handler reads the current state. An event is a call of a handler, a
  firing of a timer, or the settling of a pending remote call. An event that cannot
  happen (a timer that was cleared, a call that is not pending) changes nothing. No
  caller awaits or catches the promise of a handler (\<^verbatim>\<open>onClick={generateImage}\<close>): when
  a handler throws, the browser reports an unhandled rejection.
\<close>

datatype event =
    Mount
  | OnDrop "File list" string
  | PromptChange string
  | HandleRemoveImage
  | GenerateImage
  | HandleCancel
  | IntervalFires nat
  | ExecuteSettles "FlowscaleResponse option outcome"
  | HistorySettles "RunsResponse outcome"
  | CancelSettles "unit outcome"
  | FetchSettles "RunsResponse outcome"

definition spawn :: "completion \<times> world \<Rightarrow> world" where
  "spawn cw =
     (case cw of
        (Awaits t, w) \<Rightarrow> w\<lparr>pending := pending w @ [t]\<rparr>
      | (Threw error, w) \<Rightarrow> emit (UnhandledRejection error) w
      | (Fulfilled, w) \<Rightarrow> w)"

definition settle :: "task \<Rightarrow> (world \<Rightarrow> completion \<times> world) \<Rightarrow> world \<Rightarrow> world" where
  "settle t k w =
     (if t \<in> set (pending w) then spawn (k (w\<lparr>pending := remove1 t (pending w)\<rparr>)) else w)"

fun step :: "string \<Rightarrow> event \<Rightarrow> world \<Rightarrow> world" where
  "step workflowId Mount w = spawn (fetchPastRuns_begin w)"
| "step workflowId (OnDrop acceptedFiles objectUrl) w = onDrop acceptedFiles objectUrl w"
| "step workflowId (PromptChange v) w = setPromptText v w"
| "step workflowId HandleRemoveImage w = handleRemoveImage w"
| "step workflowId GenerateImage w = spawn (generateImage_begin workflowId w)"
| "step workflowId HandleCancel w = spawn (handleCancel_begin w)"
| "step workflowId (IntervalFires interval) w =
     (if interval \<in> set (intervals w) then interval_callback interval w else w)"
| "step workflowId (ExecuteSettles settled) w = settle ExecutePending (generateImage_resume settled) w"
| "step workflowId (HistorySettles settled) w = settle HistoryPending (generateImage_after_fetch settled) w"
| "step workflowId (CancelSettles settled) w = settle CancelPending (handleCancel_resume settled) w"
| "step workflowId (FetchSettles settled) w = settle FetchPending (fetchPastRuns_resume settled) w"

fun run :: "string \<Rightarrow> event list \<Rightarrow> world \<Rightarrow> world" where
  "run workflowId [] w = w"
| "run workflowId (e # es) w = run workflowId es (step workflowId e w)"

subsection \<open>Predicates and counters used in the statements\<close>

text \<open>
  The condition under which \<^verbatim>\<open>generateImage\<close> takes its success branch, as a predicate on
  how the remote call settled.
\<close>

definition full_success :: "FlowscaleResponse option outcome \<Rightarrow> bool" where
  "full_success settled =
     (case settled of
        Resolved (Some result) \<Rightarrow>
          status result = ''success'' \<and>
          (case data result of None \<Rightarrow> False | Some d \<Rightarrow> generation_status d = ''success'')
      | Resolved None \<Rightarrow> False
      | Rejected error \<Rightarrow> False)"

fun execute_settles :: "event \<Rightarrow> bool" where
  "execute_settles (ExecuteSettles settled) = True"
| "execute_settles e = False"

fun succeeds :: "event \<Rightarrow> bool" where
  "succeeds (ExecuteSettles settled) = full_success settled"
| "succeeds e = False"

text \<open>The run ids passed to \<^verbatim>\<open>cancelRun\<close>, and the number of \<^verbatim>\<open>getRuns\<close> calls, in a log.\<close>

fun cancel_calls :: "effect list \<Rightarrow> string list" where
  "cancel_calls [] = []"
| "cancel_calls (CancelRun rid # es) = rid # cancel_calls es"
| "cancel_calls (e # es) = cancel_calls es"

fun get_runs_calls :: "effect list \<Rightarrow> nat" where
  "get_runs_calls [] = 0"
| "get_runs_calls (GetRuns # es) = Suc (get_runs_calls es)"
| "get_runs_calls (e # es) = get_runs_calls es"

text \<open>The values the ticker can produce: the multiples of 5 from 0 to 95.\<close>

definition on_ticker_scale :: "world \<Rightarrow> bool" where
  "on_ticker_scale w =
     (0 \<le> uploadProgress (comp w) \<and> uploadProgress (comp w) \<le> 95
      \<and> uploadProgress (comp w) mod 5 = 0)"

subsection \<open>Concrete inputs\<close>

text \<open>The scenario of the specification: a valid file, the prompt "a cat", a successful run.\<close>

definition example_file :: File where
  "example_file = \<lparr>file_name = ''valid.png'', file_size = 2048\<rparr>"

definition example_success :: FlowscaleResponse where
  "example_success =
     \<lparr>status = ''success'', runId = ''run-1'',
      data = Some \<lparr>download_url = ''https://x/out.png'', generation_status = ''success''\<rparr>\<rparr>"

definition example_success2 :: FlowscaleResponse where
  "example_success2 = example_success\<lparr>runId := ''run-2''\<rparr>"

definition example_failure :: FlowscaleResponse where
  "example_failure =
     \<lparr>status = ''success'', runId = ''run-1'',
      data = Some \<lparr>download_url = [], generation_status = ''failed''\<rparr>\<rparr>"

definition example_runs :: RunsResponse where
  "example_runs =
     \<lparr>runs_status = ''success'',
      runs_data = \<lparr>group_id = ''g'', run_count = 1,
        runs = [\<lparr>run_id = ''run-1'', run_status = ''completed'',
                 outputs = [\<lparr>filename = ''out.png'', url = ''https://x/out.png''\<rparr>]\<rparr>]\<rparr>\<rparr>"

text \<open>
  The component after the user dropped the file and typed the prompt, and after the
  click on the button.
\<close>

definition ready_world :: world where
  "ready_world =
     run ''wf'' [OnDrop [example_file] ''blob:preview'', PromptChange ''a cat''] initial_world"

definition awaiting_world :: world where
  "awaiting_world = step ''wf'' GenerateImage ready_world"

text \<open>A run whose remote call is rejected after one firing of the timer.\<close>

definition failure_events :: "event list" where
  "failure_events =
     [GenerateImage, IntervalFires 1,
      ExecuteSettles (Rejected (Thrown (Some ''Network Error'')))]"

text \<open>A click on Cancel while the remote call is in flight, and a success after it.\<close>

definition late_success_events :: "event list" where
  "late_success_events =
     [GenerateImage, IntervalFires 1, HandleCancel, ExecuteSettles (Resolved (Some example_success)),
      HistorySettles (Resolved example_runs)]"

text \<open>
  A click on Cancel while \<^verbatim>\<open>generateImage\<close> waits for \<^verbatim>\<open>fetchPastRuns\<close> (the only time
  \<^verbatim>\<open>currentRunId\<close> is set), with \<^verbatim>\<open>cancelRun\<close> failing.
\<close>

definition cancel_fails_events :: "event list" where
  "cancel_fails_events =
     [GenerateImage, ExecuteSettles (Resolved (Some example_success)), HandleCancel,
      CancelSettles (Rejected (Thrown (Some ''Network Error'')))]"

text \<open>
  Three runs, each started while the button is enabled (\<^verbatim>\<open>isLoading\<close> is false): the first
  is cancelled while it waits for \<^verbatim>\<open>fetchPastRuns\<close>, which lets the second start; the
  first then finishes and clears \<^verbatim>\<open>isLoading\<close>, which lets the third start while the
  second is in flight; then the second succeeds.
\<close>

definition overlapping_events :: "event list" where
  "overlapping_events =
     [GenerateImage, ExecuteSettles (Resolved (Some example_success)), HandleCancel,
      CancelSettles (Resolved ()), GenerateImage, HistorySettles (Resolved example_runs),
      GenerateImage, ExecuteSettles (Resolved (Some example_success2))]"

section \<open>Properties\<close>

lemmas setters = setInputFile_def setPromptText_def setIsLoading_def setUploadProgress_def
  setOutputImageUrl_def setCurrentRunId_def setPastRuns_def setPreviewUrl_def emit_def

lemmas handlers = onDrop_def handleRemoveImage_def startProgressSimulation_def
  interval_callback_def clearInterval_def handleCancel_begin_def handleCancel_resume_def
  fetchPastRuns_begin_def fetchPastRuns_resume_def generateImage_begin_def
  generateImage_catch_def generateImage_finally_def generateImage_resume_def
  generateImage_after_fetch_def spawn_def settle_def

lemmas examples = example_file_def example_success_def example_success2_def
  example_failure_def example_runs_def ready_world_def awaiting_world_def
  initial_world_def initial_state_def failure_events_def late_success_events_def
  cancel_fails_events_def overlapping_events_def

lemmas splits = option.splits list.splits outcome.splits if_splits prod.splits
  completion.splits thrown.splits

subsection \<open>The substring test\<close>

lemma starts_with_iff: "starts_with s t \<longleftrightarrow> (\<exists>v. s = t @ v)"
  by (induction s t rule: starts_with.induct) auto

text \<open>\<open>js_includes\<close> is the substring relation.\<close>

lemma js_includes_iff: "js_includes s t \<longleftrightarrow> (\<exists>u v. s = u @ t @ v)"
proof (induction s)
  case Nil
  then show ?case by simp
next
  case (Cons a s)
  show ?case
  proof
    assume "js_includes (a # s) t"
    then consider "starts_with (a # s) t" | "js_includes s t" by auto
    then show "\<exists>u v. a # s = u @ t @ v"
    proof cases
      case 1
      then obtain v where "a # s = t @ v" using starts_with_iff by blast
      then have "a # s = [] @ t @ v" by simp
      then show ?thesis by blast
    next
      case 2
      then obtain u v where "s = u @ t @ v" using Cons.IH by blast
      then have "a # s = (a # u) @ t @ v" by simp
      then show ?thesis by blast
    qed
  next
    assume "\<exists>u v. a # s = u @ t @ v"
    then obtain u v where uv: "a # s = u @ t @ v" by blast
    show "js_includes (a # s) t"
    proof (cases u)
      case Nil
      with uv have "starts_with (a # s) t" using starts_with_iff by auto
      then show ?thesis by simp
    next
      case (Cons b u')
      with uv have "s = u' @ t @ v" by simp
      then have "js_includes s t" using Cons.IH by blast
      then show ?thesis by simp
    qed
  qed
qed

subsection \<open>Logs and event sequences\<close>

lemma cancel_calls_append: "cancel_calls (xs @ ys) = cancel_calls xs @ cancel_calls ys"
  by (induction xs rule: cancel_calls.induct) auto

lemma get_runs_calls_append: "get_runs_calls (xs @ ys) = get_runs_calls xs + get_runs_calls ys"
  by (induction xs rule: get_runs_calls.induct) auto

lemma run_append: "run wid (es @ fs) w = run wid fs (run wid es w)"
  by (induction es arbitrary: w) auto

text \<open>What a call of \<^verbatim>\<open>generateImage\<close> with a file does before it suspends.\<close>

lemma generate_with_file:
  assumes "inputFile (comp w) = Some file"
  shows "step wid GenerateImage w =
     w\<lparr>comp := (comp w)\<lparr>isLoading := True, uploadProgress := 0, outputImageUrl := []\<rparr>,
       intervals := intervals w @ [next_interval w],
       next_interval := next_interval w + 1,
       effects := effects w @ [SetInterval (next_interval w) 500,
                               ExecuteWorkflowAsync wid file (promptText (comp w))],
       pending := pending w @ [ExecutePending]\<rparr>"
  using assms by (simp add: handlers setters Let_def)

text \<open>What the success branch does when the remote call settles.\<close>

lemma execute_settles_success:
  assumes "full_success (Resolved (Some result))" and "data result = Some d"
    and "ExecutePending \<in> set (pending w)"
  shows "step wid (ExecuteSettles (Resolved (Some result))) w =
     w\<lparr>comp := (comp w)\<lparr>currentRunId := Some (runId result), uploadProgress := 100,
            outputImageUrl := download_url d\<rparr>,
       effects := effects w @ [GetRuns],
       pending := remove1 ExecutePending (pending w) @ [HistoryPending]\<rparr>"
  using assms
  by (simp add: full_success_def settle_def spawn_def generateImage_resume_def
      fetchPastRuns_begin_def setters)

lemma history_settles:
  assumes "HistoryPending \<in> set (pending w)"
  shows "comp (step wid (HistorySettles history) w) =
     (comp w)\<lparr>pastRuns := (case history of Resolved response \<Rightarrow> runs (runs_data response)
                                | Rejected error \<Rightarrow> pastRuns (comp w)),
              isLoading := False, currentRunId := None\<rparr>
    \<and> get_runs_calls (effects (step wid (HistorySettles history) w)) = get_runs_calls (effects w)"
  using assms
  by (cases history)
     (simp_all add: settle_def spawn_def generateImage_after_fetch_def fetchPastRuns_resume_def
        generateImage_finally_def setters get_runs_calls_append)

text \<open>
  Firings of a timer once the progress is at 95 or above change neither the state cells
  nor the pending calls.
\<close>

lemma fire_at_cap:
  "95 \<le> uploadProgress (comp w) \<Longrightarrow>
   comp (step wid (IntervalFires i) w) = comp w \<and>
   pending (step wid (IntervalFires i) w) = pending w \<and>
   get_runs_calls (effects (step wid (IntervalFires i) w)) = get_runs_calls (effects w)"
  by (simp add: interval_callback_def clearInterval_def emit_def get_runs_calls_append)

lemma fires_at_cap:
  "95 \<le> uploadProgress (comp w) \<Longrightarrow>
   comp (run wid (map IntervalFires ticks) w) = comp w \<and>
   pending (run wid (map IntervalFires ticks) w) = pending w \<and>
   get_runs_calls (effects (run wid (map IntervalFires ticks) w)) = get_runs_calls (effects w)"
proof (induction ticks arbitrary: w)
  case Nil
  then show ?case by simp
next
  case (Cons i ticks)
  let ?w1 = "step wid (IntervalFires i) w"
  from Cons.prems have one: "comp ?w1 = comp w" "pending ?w1 = pending w"
    "get_runs_calls (effects ?w1) = get_runs_calls (effects w)"
    using fire_at_cap [of w wid i] by simp_all
  with Cons.prems have "95 \<le> uploadProgress (comp ?w1)" by simp
  from Cons.IH [OF this] one show ?case by simp
qed

subsection \<open>Submitting without a file\<close>

text \<open>
  C6. With no input file selected, \<^verbatim>\<open>generateImage\<close> shows the alert
  "Please select an image first" and returns: the alert is the only effect (no remote
  call, no timer), and every state cell, the timers and the pending calls are as before.
\<close>

theorem generateImage_no_file:
  "inputFile (comp w) = None \<Longrightarrow>
   generateImage_begin workflowId w =
     (Fulfilled, w\<lparr>effects := effects w @ [Alert ''Please select an image first'']\<rparr>)
   \<and> step workflowId GenerateImage w =
       w\<lparr>effects := effects w @ [Alert ''Please select an image first'']\<rparr>"
  by (simp add: generateImage_begin_def spawn_def emit_def)

theorem generateImage_no_file_witness:
  "inputFile (comp initial_world) = None \<and>
   generateImage_begin ''wf'' initial_world =
     (Fulfilled, initial_world\<lparr>effects := [Alert ''Please select an image first'']\<rparr>)"
  using generateImage_no_file [of initial_world "''wf''"]
  by (simp add: initial_world_def initial_state_def)

subsection \<open>Cancelling with no run id\<close>

text \<open>
  C7. When \<^verbatim>\<open>currentRunId\<close> is null, \<^verbatim>\<open>handleCancel\<close> returns at once: it calls nothing
  (the log of effects is unchanged, so no \<^verbatim>\<open>cancelRun\<close>) and changes no state.
\<close>

theorem handleCancel_no_run:
  "currentRunId (comp w) = None \<Longrightarrow>
   handleCancel_begin w = (Fulfilled, w) \<and> step workflowId HandleCancel w = w"
  by (simp add: handleCancel_begin_def spawn_def)

theorem handleCancel_no_run_witness:
  "currentRunId (comp awaiting_world) = None \<and>
   handleCancel_begin awaiting_world = (Fulfilled, awaiting_world) \<and>
   step ''wf'' HandleCancel awaiting_world = awaiting_world"
  using handleCancel_no_run [of awaiting_world "''wf''"]
  by (simp add: examples handlers setters)

subsection \<open>A remote call that does not fully succeed\<close>

text \<open>
  When \<^verbatim>\<open>executeWorkflowAsync\<close> settles in any way but full success, and not by a
  rejection with null or undefined (it rejects with another value, it resolves with a
  status or a generation status other than "success", or it resolves with a malformed
  answer), the rest of \<^verbatim>\<open>generateImage\<close> returns normally: the error is caught and
  logged, one alert with a user message is shown, \<^verbatim>\<open>isLoading\<close> is false and
  \<^verbatim>\<open>currentRunId\<close> is null afterwards, and nothing else happens: \<^verbatim>\<open>getRuns\<close> is not called
  and \<^verbatim>\<open>pastRuns\<close> is untouched. The pending call is gone and no continuation takes its
  place: the submit has settled.
\<close>

lemma generateImage_failure:
  assumes "\<not> full_success settled" and "settled \<noteq> Rejected Nullish"
  shows "generateImage_resume settled w =
       (Fulfilled,
        w\<lparr>comp := (comp w)\<lparr>isLoading := False, currentRunId := None\<rparr>,
          effects := effects w @
            [ConsoleError ''Error processing image:''
               (case settled of
                  Rejected error \<Rightarrow> error
                | Resolved None \<Rightarrow> TypeError ''runId''
                | Resolved (Some result) \<Rightarrow>
                    if status result = ''success'' \<and> data result = None
                    then TypeError ''generation_status''
                    else Thrown (Some ''Generation failed'')),
             Alert (if (\<exists>m. settled = Rejected (Thrown (Some m)) \<and> js_includes m ''timed out'')
                    then ''Image processing took too long to complete. Please try again.''
                    else ''Error processing image. Please try again.'')]\<rparr>)
     \<and> (ExecutePending \<in> set (pending w) \<longrightarrow>
          pending (step wid (ExecuteSettles settled) w) = remove1 ExecutePending (pending w))"
proof (cases settled)
  case (Rejected error)
  with assms(2) have "error \<noteq> Nullish" by simp
  with Rejected show ?thesis
    by (cases error)
       (auto simp: generateImage_resume_def generateImage_catch_def generateImage_finally_def
          settle_def spawn_def setters Let_def split: option.splits)
next
  case (Resolved answer)
  show ?thesis
  proof (cases answer)
    case None
    with Resolved show ?thesis
      by (simp add: generateImage_resume_def generateImage_catch_def generateImage_finally_def
          settle_def spawn_def setters Let_def)
  next
    case (Some result)
    with Resolved assms(1) show ?thesis
      by (cases "data result")
         (auto simp: full_success_def generateImage_resume_def generateImage_catch_def
            generateImage_finally_def settle_def spawn_def setters Let_def)
  qed
qed

text \<open>
  Whatever the settlement other than full success, a null or undefined rejection
  included, the \<^verbatim>\<open>finally\<close> block has run: \<^verbatim>\<open>isLoading\<close> is false, \<^verbatim>\<open>currentRunId\<close> is
  null, \<^verbatim>\<open>getRuns\<close> was not called and nothing is left pending.
\<close>

lemma generateImage_failure_state:
  assumes "\<not> full_success settled" and "ExecutePending \<in> set (pending w)"
  shows "isLoading (comp (step wid (ExecuteSettles settled) w)) = False
     \<and> currentRunId (comp (step wid (ExecuteSettles settled) w)) = None
     \<and> pastRuns (comp (step wid (ExecuteSettles settled) w)) = pastRuns (comp w)
     \<and> get_runs_calls (effects (step wid (ExecuteSettles settled) w)) = get_runs_calls (effects w)
     \<and> pending (step wid (ExecuteSettles settled) w) = remove1 ExecutePending (pending w)"
  using assms
  by (auto simp: full_success_def handlers setters Let_def get_runs_calls_append
      split: splits)

text \<open>
  C1. The claim holds for every outcome but one (\<open>generateImage_failure\<close>). When the
  remote call rejects with null or undefined, the \<^verbatim>\<open>catch\<close> block logs the error and
  then throws a TypeError at \<^verbatim>\<open>error.message\<close>: no alert is shown, the \<^verbatim>\<open>finally\<close> block
  clears \<^verbatim>\<open>isLoading\<close>, and the promise of \<^verbatim>\<open>generateImage\<close> rejects with nothing to handle
  it.
\<close>

theorem generateImage_nullish_rejection:
  "\<not> full_success (Rejected Nullish) \<and>
   isLoading (comp awaiting_world) = True \<and>
   generateImage_resume (Rejected Nullish) awaiting_world =
     (Threw (TypeError ''message''),
      awaiting_world\<lparr>comp := (comp awaiting_world)\<lparr>isLoading := False\<rparr>,
        effects := effects awaiting_world @
          [ConsoleError ''Error processing image:'' Nullish]\<rparr>) \<and>
   effects (step ''wf'' (ExecuteSettles (Rejected Nullish)) awaiting_world) =
     effects awaiting_world @
       [ConsoleError ''Error processing image:'' Nullish,
        UnhandledRejection (TypeError ''message'')]"
  by (simp add: full_success_def examples handlers setters)

subsection \<open>The timeout message\<close>

text \<open>
  C9. When \<^verbatim>\<open>executeWorkflowAsync\<close> rejects with an error whose message contains
  "timed out", \<^verbatim>\<open>generateImage\<close> ends in the failed state (\<^verbatim>\<open>isLoading\<close> false,
  \<^verbatim>\<open>currentRunId\<close> null) and its alert is the timeout message; for every other rejection
  with a value that is not null or undefined the alert is the generic message; the two
  messages differ.
\<close>

theorem generateImage_timeout_message:
  "generateImage_resume (Rejected (Thrown msg)) w =
     (Fulfilled,
      w\<lparr>comp := (comp w)\<lparr>isLoading := False, currentRunId := None\<rparr>,
        effects := effects w @
          [ConsoleError ''Error processing image:'' (Thrown msg),
           Alert (if (\<exists>m. msg = Some m \<and> js_includes m ''timed out'')
                  then ''Image processing took too long to complete. Please try again.''
                  else ''Error processing image. Please try again.'')]\<rparr>)
   \<and> ''Image processing took too long to complete. Please try again.''
       \<noteq> ''Error processing image. Please try again.''"
  by (auto simp: generateImage_resume_def generateImage_catch_def generateImage_finally_def
        setters Let_def split: option.splits)

theorem generateImage_timeout_message_witness:
  "js_includes ''Request timed out'' ''timed out'' \<and>
   generateImage_resume (Rejected (Thrown (Some ''Request timed out''))) awaiting_world =
     (Fulfilled,
      awaiting_world\<lparr>comp := (comp awaiting_world)\<lparr>isLoading := False\<rparr>,
        effects := effects awaiting_world @
          [ConsoleError ''Error processing image:'' (Thrown (Some ''Request timed out'')),
           Alert ''Image processing took too long to complete. Please try again.'']\<rparr>)"
  using generateImage_timeout_message [of "Some ''Request timed out''" awaiting_world]
  by (simp add: examples handlers setters)

subsection \<open>A remote call that fully succeeds\<close>

text \<open>
  C5. When \<^verbatim>\<open>executeWorkflowAsync\<close> resolves with status "success" and generation status
  "success", \<^verbatim>\<open>generateImage\<close> sets the progress to 100, stores the download URL as the
  output image URL and calls \<^verbatim>\<open>getRuns\<close>; when that call has settled (timer firings in
  between change nothing), the progress is 100, the output URL is the download URL,
  \<^verbatim>\<open>currentRunId\<close> is null, \<^verbatim>\<open>isLoading\<close> is false, \<^verbatim>\<open>getRuns\<close> has been called exactly once,
  and \<^verbatim>\<open>pastRuns\<close> is the answer of \<^verbatim>\<open>getRuns\<close> if it resolved.
\<close>

theorem generateImage_success:
  assumes "full_success (Resolved (Some result))" and "data result = Some d"
    and "ExecutePending \<in> set (pending w)"
  shows "generateImage_resume (Resolved (Some result)) w =
       (Awaits HistoryPending,
        w\<lparr>comp := (comp w)\<lparr>currentRunId := Some (runId result), uploadProgress := 100,
               outputImageUrl := download_url d\<rparr>,
          effects := effects w @ [GetRuns]\<rparr>)
     \<and> (let w' = run wid (ExecuteSettles (Resolved (Some result)) # map IntervalFires ticks
                            @ [HistorySettles history]) w
        in uploadProgress (comp w') = 100
           \<and> outputImageUrl (comp w') = download_url d
           \<and> currentRunId (comp w') = None
           \<and> isLoading (comp w') = False
           \<and> get_runs_calls (effects w') = get_runs_calls (effects w) + 1
           \<and> pastRuns (comp w') =
               (case history of Resolved response \<Rightarrow> runs (runs_data response)
                              | Rejected error \<Rightarrow> pastRuns (comp w)))"
proof -
  define w1 where "w1 = step wid (ExecuteSettles (Resolved (Some result))) w"
  define w2 where "w2 = run wid (map IntervalFires ticks) w1"
  define w3 where "w3 = step wid (HistorySettles history) w2"
  have c1: "comp w1 = (comp w)\<lparr>currentRunId := Some (runId result), uploadProgress := 100,
            outputImageUrl := download_url d\<rparr>"
    and e1: "effects w1 = effects w @ [GetRuns]"
    and p1: "HistoryPending \<in> set (pending w1)"
    unfolding w1_def execute_settles_success [OF assms] by simp_all
  have "95 \<le> uploadProgress (comp w1)" by (simp add: c1)
  from fires_at_cap [OF this, of wid ticks]
  have c2: "comp w2 = comp w1" and p2: "pending w2 = pending w1"
    and e2: "get_runs_calls (effects w2) = get_runs_calls (effects w1)"
    unfolding w2_def by simp_all
  have "HistoryPending \<in> set (pending w2)" using p1 p2 by simp
  from history_settles [OF this, of wid history]
  have c3: "comp w3 =
      (comp w2)\<lparr>pastRuns := (case history of Resolved response \<Rightarrow> runs (runs_data response)
                                | Rejected error \<Rightarrow> pastRuns (comp w2)),
                isLoading := False, currentRunId := None\<rparr>"
    and e3: "get_runs_calls (effects w3) = get_runs_calls (effects w2)"
    unfolding w3_def by simp_all
  have run: "run wid (ExecuteSettles (Resolved (Some result)) # map IntervalFires ticks
                            @ [HistorySettles history]) w = w3"
    unfolding w3_def w2_def w1_def by (simp add: run_append)
  have first: "generateImage_resume (Resolved (Some result)) w =
       (Awaits HistoryPending,
        w\<lparr>comp := (comp w)\<lparr>currentRunId := Some (runId result), uploadProgress := 100,
               outputImageUrl := download_url d\<rparr>,
          effects := effects w @ [GetRuns]\<rparr>)"
    using assms(1,2)
    by (simp add: full_success_def generateImage_resume_def fetchPastRuns_begin_def setters)
  have fields: "uploadProgress (comp w3) = 100"
    "outputImageUrl (comp w3) = download_url d"
    "currentRunId (comp w3) = None" "isLoading (comp w3) = False"
    "pastRuns (comp w3) = (case history of Resolved response \<Rightarrow> runs (runs_data response)
                              | Rejected error \<Rightarrow> pastRuns (comp w))"
    by (simp_all add: c3 c2 c1 split: outcome.splits)
  have calls: "get_runs_calls (effects w3) = get_runs_calls (effects w) + 1"
    by (simp add: e3 e2 e1 get_runs_calls_append)
  show ?thesis
    unfolding run Let_def using first fields calls by simp
qed

theorem generateImage_success_witness:
  "full_success (Resolved (Some example_success)) \<and>
   data example_success
     = Some \<lparr>download_url = ''https://x/out.png'', generation_status = ''success''\<rparr> \<and>
   ExecutePending \<in> set (pending awaiting_world) \<and>
   (let w' = run ''wf'' [ExecuteSettles (Resolved (Some example_success)), IntervalFires 1,
                         HistorySettles (Resolved example_runs)] awaiting_world
    in uploadProgress (comp w') = 100 \<and> outputImageUrl (comp w') = ''https://x/out.png''
       \<and> currentRunId (comp w') = None \<and> isLoading (comp w') = False
       \<and> get_runs_calls (effects w') = 1
       \<and> pastRuns (comp w') = runs (runs_data example_runs))"
  using generateImage_success [where result = example_success
      and d = "\<lparr>download_url = ''https://x/out.png'', generation_status = ''success''\<rparr>"
      and w = awaiting_world and wid = "''wf''" and ticks = "[1]"
      and history = "Resolved example_runs"]
  by (simp add: full_success_def examples handlers setters)

subsection \<open>A cancel request that fails\<close>

text \<open>
  The specification's statement that a failed \<^verbatim>\<open>cancelRun\<close> still clears the local state
  does not hold. The run id is set only while \<^verbatim>\<open>generateImage\<close> waits for \<^verbatim>\<open>fetchPastRuns\<close>;
  a click on Cancel there calls \<^verbatim>\<open>cancelRun\<close>, and when that call is rejected
  \<^verbatim>\<open>handleCancel\<close> has settled with \<^verbatim>\<open>isLoading\<close> still true, the run id still set and
  the progress still 100.
\<close>

theorem handleCancel_rejected_counterexample:
  "cancel_calls (effects (run ''wf'' cancel_fails_events ready_world)) = [''run-1''] \<and>
   CancelPending \<notin> set (pending (run ''wf'' cancel_fails_events ready_world)) \<and>
   isLoading (comp (run ''wf'' cancel_fails_events ready_world)) = True \<and>
   currentRunId (comp (run ''wf'' cancel_fails_events ready_world)) = Some ''run-1'' \<and>
   uploadProgress (comp (run ''wf'' cancel_fails_events ready_world)) = 100"
  by (simp add: examples handlers setters Let_def)

text \<open>
  C3, as the code has it. Let \<^verbatim>\<open>handleCancel\<close> be called with a run id set. It calls
  \<^verbatim>\<open>cancelRun\<close> with that id. When the call is rejected, \<^verbatim>\<open>handleCancel\<close> only logs the
  error: every state cell (\<^verbatim>\<open>isLoading\<close>, \<^verbatim>\<open>currentRunId\<close>, the progress) is as before. The
  local state is cleared (\<^verbatim>\<open>isLoading\<close> false, \<^verbatim>\<open>currentRunId\<close> null, progress 0) only when
  the call resolves.
\<close>

theorem handleCancel_settled:
  assumes "currentRunId (comp w) = Some rid" and "rid \<noteq> []"
  shows "(let w' = run wid [HandleCancel, CancelSettles (Rejected error)] w
          in comp w' = comp w
             \<and> effects w' = effects w @ [CancelRun rid, ConsoleError ''Error cancelling run:'' error]
             \<and> intervals w' = intervals w)
       \<and> (let w' = run wid [HandleCancel, CancelSettles (Resolved u)] w
          in comp w' = (comp w)\<lparr>isLoading := False, currentRunId := None, uploadProgress := 0\<rparr>
             \<and> effects w' = effects w @ [CancelRun rid]
             \<and> intervals w' = intervals w)"
  using assms
  by (simp add: handleCancel_begin_def handleCancel_resume_def spawn_def settle_def setters)

theorem handleCancel_settled_witness:
  "currentRunId (comp (run ''wf'' (take 2 cancel_fails_events) ready_world)) = Some ''run-1'' \<and>
   isLoading (comp (run ''wf'' (take 2 cancel_fails_events) ready_world)) = True \<and>
   comp (run ''wf'' [HandleCancel, CancelSettles (Rejected (Thrown (Some ''Network Error'')))]
           (run ''wf'' (take 2 cancel_fails_events) ready_world))
     = comp (run ''wf'' (take 2 cancel_fails_events) ready_world) \<and>
   comp (run ''wf'' [HandleCancel, CancelSettles (Resolved ())]
           (run ''wf'' (take 2 cancel_fails_events) ready_world))
     = (comp (run ''wf'' (take 2 cancel_fails_events) ready_world))
         \<lparr>isLoading := False, currentRunId := None, uploadProgress := 0\<rparr>"
  using handleCancel_settled [of "run ''wf'' (take 2 cancel_fails_events) ready_world"
      "''run-1''" "''wf''" "Thrown (Some ''Network Error'')" "()"]
  by (simp add: examples handlers setters Let_def)

subsection \<open>Cancel while the remote call is in flight\<close>

lemma step_keeps_run_id_none:
  "currentRunId (comp w) = None \<Longrightarrow> \<not> execute_settles e \<Longrightarrow>
   currentRunId (comp (step wid e w)) = None"
  by (cases e) (auto simp: handlers setters Let_def split: splits)

lemma step_keeps_execute_pending:
  "ExecutePending \<in> set (pending w) \<Longrightarrow> \<not> execute_settles e \<Longrightarrow>
   ExecutePending \<in> set (pending (step wid e w))"
  by (cases e) (auto simp: handlers setters Let_def split: splits)

lemma step_no_cancel_call:
  "currentRunId (comp w) = None \<Longrightarrow>
   cancel_calls (effects (step wid e w)) = cancel_calls (effects w)"
  by (cases e) (auto simp: handlers setters Let_def cancel_calls_append split: splits)

lemma run_in_flight:
  "currentRunId (comp w) = None \<Longrightarrow> ExecutePending \<in> set (pending w) \<Longrightarrow>
   \<forall>e\<in>set es. \<not> execute_settles e \<Longrightarrow>
   currentRunId (comp (run wid es w)) = None \<and> ExecutePending \<in> set (pending (run wid es w)) \<and>
   cancel_calls (effects (run wid es w)) = cancel_calls (effects w)"
proof (induction es arbitrary: w)
  case Nil
  then show ?case by simp
next
  case (Cons e es)
  from Cons.prems have e: "\<not> execute_settles e" and es: "\<forall>e\<in>set es. \<not> execute_settles e"
    by simp_all
  have 1: "currentRunId (comp (step wid e w)) = None"
    using step_keeps_run_id_none Cons.prems(1) e by blast
  have 2: "ExecutePending \<in> set (pending (step wid e w))"
    using step_keeps_execute_pending Cons.prems(2) e by blast
  have 3: "cancel_calls (effects (step wid e w)) = cancel_calls (effects w)"
    using step_no_cancel_call Cons.prems(1) by blast
  from Cons.IH [OF 1 2 es] 3 show ?case by simp
qed

text \<open>
  The specification's race property does not hold: the user submits, clicks Cancel
  while the remote call is in flight, and the call then resolves as a success. The
  click calls nothing, and the run ends as a success: progress 100, output URL set.
\<close>

theorem cancel_then_success_counterexample:
  "uploadProgress (comp (run ''wf'' late_success_events ready_world)) = 100 \<and>
   outputImageUrl (comp (run ''wf'' late_success_events ready_world)) = ''https://x/out.png'' \<and>
   cancel_calls (effects (run ''wf'' late_success_events ready_world)) = [] \<and>
   \<not> (uploadProgress (comp (run ''wf'' late_success_events ready_world)) = 0 \<and>
      outputImageUrl (comp (run ''wf'' late_success_events ready_world)) = [])"
  by (simp add: examples handlers setters Let_def)

text \<open>
  C2, as the code has it. \<^verbatim>\<open>generateImage\<close> compares no run id before it applies a
  result. If \<^verbatim>\<open>handleCancel\<close> is called while the remote call is in flight (with
  \<^verbatim>\<open>currentRunId\<close> null at the submit), it changes nothing and calls nothing, and a success
  that arrives afterwards is applied in full: the progress is 100 and the output URL is
  the download URL, both when the call resolves and when \<^verbatim>\<open>generateImage\<close> has settled,
  where \<^verbatim>\<open>isLoading\<close> is false and \<^verbatim>\<open>currentRunId\<close> is null; \<^verbatim>\<open>cancelRun\<close> was never called.
\<close>

theorem cancel_in_flight_then_success:
  assumes "inputFile (comp w) = Some file" and "currentRunId (comp w) = None"
    and "full_success (Resolved (Some result))" and "data result = Some d"
  shows "let w1 = step wid GenerateImage w;
             w2 = step wid HandleCancel w1;
             w3 = step wid (ExecuteSettles (Resolved (Some result))) w2;
             w4 = step wid (HistorySettles history) w3
         in w2 = w1
            \<and> uploadProgress (comp w3) = 100
            \<and> outputImageUrl (comp w3) = download_url d
            \<and> uploadProgress (comp w4) = 100
            \<and> outputImageUrl (comp w4) = download_url d
            \<and> isLoading (comp w4) = False
            \<and> currentRunId (comp w4) = None
            \<and> cancel_calls (effects w4) = cancel_calls (effects w)"
proof -
  define w1 where "w1 = step wid GenerateImage w"
  define w3 where "w3 = step wid (ExecuteSettles (Resolved (Some result))) w1"
  define w4 where "w4 = step wid (HistorySettles history) w3"
  have w1: "currentRunId (comp w1) = None" "ExecutePending \<in> set (pending w1)"
    "cancel_calls (effects w1) = cancel_calls (effects w)"
    unfolding w1_def generate_with_file [OF assms(1)] using assms(2)
    by (simp_all add: cancel_calls_append)
  have cancel: "step wid HandleCancel w1 = w1"
    using w1(1) by (simp add: handleCancel_begin_def spawn_def)
  have w3: "uploadProgress (comp w3) = 100"
    "outputImageUrl (comp w3) = download_url d"
    "HistoryPending \<in> set (pending w3)" "cancel_calls (effects w3) = cancel_calls (effects w)"
    unfolding w3_def using w1(2) w1(3) assms(3,4)
    by (simp_all add: full_success_def settle_def spawn_def generateImage_resume_def
        fetchPastRuns_begin_def setters cancel_calls_append)
  have w4: "uploadProgress (comp w4) = 100"
    "outputImageUrl (comp w4) = download_url d"
    "isLoading (comp w4) = False" "currentRunId (comp w4) = None"
    "cancel_calls (effects w4) = cancel_calls (effects w)"
    unfolding w4_def using w3
    by (cases history;
        simp add: settle_def spawn_def generateImage_after_fetch_def fetchPastRuns_resume_def
          generateImage_finally_def setters cancel_calls_append)+
  show ?thesis
    unfolding Let_def w1_def [symmetric] cancel w3_def [symmetric] w4_def [symmetric]
    using w3 w4 by simp
qed

theorem cancel_in_flight_then_success_witness:
  "inputFile (comp ready_world) = Some example_file \<and> currentRunId (comp ready_world) = None \<and>
   full_success (Resolved (Some example_success)) \<and>
   data example_success
     = Some \<lparr>download_url = ''https://x/out.png'', generation_status = ''success''\<rparr> \<and>
   step ''wf'' HandleCancel (step ''wf'' GenerateImage ready_world)
     = step ''wf'' GenerateImage ready_world \<and>
   uploadProgress (comp (run ''wf''
     [GenerateImage, HandleCancel, ExecuteSettles (Resolved (Some example_success)),
      HistorySettles (Resolved example_runs)] ready_world)) = 100 \<and>
   outputImageUrl (comp (run ''wf''
     [GenerateImage, HandleCancel, ExecuteSettles (Resolved (Some example_success)),
      HistorySettles (Resolved example_runs)] ready_world)) = ''https://x/out.png''"
  using cancel_in_flight_then_success [of ready_world example_file example_success
      "\<lparr>download_url = ''https://x/out.png'', generation_status = ''success''\<rparr>"
      "''wf''" "Resolved example_runs"]
  by (simp add: full_success_def examples handlers setters Let_def)

subsection \<open>The run id while the remote call is in flight\<close>

text \<open>
  The statement that \<^verbatim>\<open>currentRunId\<close> is null whenever an \<^verbatim>\<open>executeWorkflowAsync\<close> call is
  in flight fails when runs overlap. In \<open>overlapping_events\<close> every click on the button
  finds \<^verbatim>\<open>isLoading\<close> false and every click on Cancel finds it true, as the rendered
  buttons require; at the end the third run's call is still in flight, the run id is the
  second run's, and a click on Cancel calls \<^verbatim>\<open>cancelRun\<close> with it.
\<close>

theorem run_id_set_in_flight_counterexample:
  "isLoading (comp (run ''wf'' (take 0 overlapping_events) ready_world)) = False \<and>
   isLoading (comp (run ''wf'' (take 2 overlapping_events) ready_world)) = True \<and>
   isLoading (comp (run ''wf'' (take 4 overlapping_events) ready_world)) = False \<and>
   isLoading (comp (run ''wf'' (take 6 overlapping_events) ready_world)) = False \<and>
   isLoading (comp (run ''wf'' overlapping_events ready_world)) = True \<and>
   ExecutePending \<in> set (pending (run ''wf'' overlapping_events ready_world)) \<and>
   currentRunId (comp (run ''wf'' overlapping_events ready_world)) = Some ''run-2'' \<and>
   cancel_calls (effects (run ''wf'' overlapping_events ready_world)) = [''run-1''] \<and>
   cancel_calls (effects (step ''wf'' HandleCancel (run ''wf'' overlapping_events ready_world)))
     = [''run-1'', ''run-2'']"
  by (simp add: examples handlers setters Let_def)

text \<open>
  C10, as the code has it. Let \<^verbatim>\<open>generateImage\<close> be called with a file selected and
  \<^verbatim>\<open>currentRunId\<close> null, and let any events follow among which no \<^verbatim>\<open>executeWorkflowAsync\<close>
  call settles. Then the call is still in flight, \<^verbatim>\<open>currentRunId\<close> is null, a call of
  \<^verbatim>\<open>handleCancel\<close> changes nothing, and \<^verbatim>\<open>cancelRun\<close> has not been called since the submit.
  The run id is assigned when the call resolves (it stays set only on the success
  branch, while \<^verbatim>\<open>fetchPastRuns\<close> is awaited) and is null again when \<^verbatim>\<open>generateImage\<close> has
  settled.
\<close>

theorem run_id_null_in_flight:
  assumes "inputFile (comp w) = Some file" and "currentRunId (comp w) = None"
    and "\<forall>e\<in>set es. \<not> execute_settles e"
  shows "let w' = run wid es (step wid GenerateImage w)
         in ExecutePending \<in> set (pending w')
            \<and> currentRunId (comp w') = None
            \<and> step wid HandleCancel w' = w'
            \<and> cancel_calls (effects w') = cancel_calls (effects w)
            \<and> currentRunId (comp (step wid (ExecuteSettles settled) w')) =
                (case settled of
                   Resolved None \<Rightarrow> None
                 | Resolved (Some result) \<Rightarrow>
                     if full_success settled then Some (runId result) else None
                 | Rejected error \<Rightarrow> None)
            \<and> currentRunId (comp (step wid (HistorySettles history)
                 (step wid (ExecuteSettles settled) w'))) = None"
proof -
  define w1 where "w1 = step wid GenerateImage w"
  define w' where "w' = run wid es w1"
  have w1: "currentRunId (comp w1) = None" "ExecutePending \<in> set (pending w1)"
    "cancel_calls (effects w1) = cancel_calls (effects w)"
    unfolding w1_def generate_with_file [OF assms(1)] using assms(2)
    by (simp_all add: cancel_calls_append)
  from run_in_flight [OF w1(1) w1(2) assms(3), of wid]
  have w': "currentRunId (comp w') = None" "ExecutePending \<in> set (pending w')"
    "cancel_calls (effects w') = cancel_calls (effects w)"
    unfolding w'_def using w1(3) by simp_all
  have cancel: "step wid HandleCancel w' = w'"
    using w'(1) by (simp add: handleCancel_begin_def spawn_def)
  have settled: "currentRunId (comp (step wid (ExecuteSettles settled) w')) =
                (case settled of
                   Resolved None \<Rightarrow> None
                 | Resolved (Some result) \<Rightarrow>
                     if full_success settled then Some (runId result) else None
                 | Rejected error \<Rightarrow> None)"
    using w'(2)
    by (auto simp: full_success_def handlers setters Let_def split: splits)
  have after: "currentRunId (comp (step wid (HistorySettles history)
                 (step wid (ExecuteSettles settled) w'))) = None"
    using w'(2)
    by (auto simp: full_success_def handlers setters Let_def split: splits)
  show ?thesis
    unfolding Let_def w1_def [symmetric] w'_def [symmetric]
    using w' cancel settled after by simp
qed

theorem run_id_null_in_flight_witness:
  "inputFile (comp ready_world) = Some example_file \<and> currentRunId (comp ready_world) = None \<and>
   (let w' = run ''wf'' [IntervalFires 1, HandleCancel, PromptChange ''a dog'', IntervalFires 1]
               (step ''wf'' GenerateImage ready_world)
    in ExecutePending \<in> set (pending w') \<and> currentRunId (comp w') = None \<and>
       uploadProgress (comp w') = 10 \<and>
       step ''wf'' HandleCancel w' = w' \<and> cancel_calls (effects w') = [] \<and>
       currentRunId (comp (step ''wf'' (ExecuteSettles (Resolved (Some example_success))) w'))
         = Some ''run-1'' \<and>
       currentRunId (comp (step ''wf'' (HistorySettles (Resolved example_runs))
           (step ''wf'' (ExecuteSettles (Resolved (Some example_success))) w'))) = None)"
  using run_id_null_in_flight [of ready_world example_file
      "[IntervalFires 1, HandleCancel, PromptChange ''a dog'', IntervalFires 1]" "''wf''"
      "Resolved (Some example_success)" "Resolved example_runs"]
  by (simp add: full_success_def examples handlers setters Let_def)

subsection \<open>When the ticker stops\<close>

lemma step_keeps_interval:
  assumes "i \<in> set (intervals w)" and "i \<notin> set (intervals (step wid e w))"
  shows "e = IntervalFires i \<and> 95 \<le> uploadProgress (comp w) \<and> comp (step wid e w) = comp w"
  using assms
  by (cases e) (auto simp: handlers setters Let_def split: splits)

text \<open>
  The statement that the timer is stopped when the run ends does not hold: after a
  rejected remote call (the run has ended, \<^verbatim>\<open>isLoading\<close> is false) the timer is still
  live, and its next firing moves the progress from 5 to 10.
\<close>

theorem dangling_ticker_counterexample:
  "ExecutePending \<notin> set (pending (run ''wf'' failure_events ready_world)) \<and>
   isLoading (comp (run ''wf'' failure_events ready_world)) = False \<and>
   intervals (run ''wf'' failure_events ready_world) = [1] \<and>
   uploadProgress (comp (run ''wf'' failure_events ready_world)) = 5 \<and>
   uploadProgress (comp (run ''wf'' (failure_events @ [IntervalFires 1]) ready_world)) = 10"
  by (simp add: examples handlers setters Let_def)

text \<open>
  C4, as the code has it. No transition out of the waiting state stops the timer. A
  live timer stops at one event only: a firing of its own that finds the progress at 95
  or above, and that firing changes no state cell. A firing that finds the progress
  below 95 adds 5 and leaves the timer live. So after a success (progress 100) the
  timer stops at its next firing, and after a failure or a cancellation it goes on
  firing and raising the progress until 95.
\<close>

theorem ticker_stops_only_in_callback:
  "(i \<in> set (intervals w) \<and> i \<notin> set (intervals (step wid e w)) \<longrightarrow>
      e = IntervalFires i \<and> 95 \<le> uploadProgress (comp w) \<and> comp (step wid e w) = comp w)
   \<and> (i \<in> set (intervals w) \<longrightarrow>
        set (intervals (step wid (IntervalFires i) w)) =
          (if 95 \<le> uploadProgress (comp w) then set (intervals w) - {i} else set (intervals w))
        \<and> uploadProgress (comp (step wid (IntervalFires i) w)) =
          (if 95 \<le> uploadProgress (comp w) then uploadProgress (comp w)
           else uploadProgress (comp w) + 5))"
  using step_keeps_interval [of i w wid e]
  by (auto simp: interval_callback_def clearInterval_def setters)

theorem ticker_stops_only_in_callback_witness:
  "1 \<in> set (intervals (run ''wf'' failure_events ready_world)) \<and>
   set (intervals (step ''wf'' (IntervalFires 1) (run ''wf'' failure_events ready_world))) = {1} \<and>
   uploadProgress (comp (step ''wf'' (IntervalFires 1) (run ''wf'' failure_events ready_world)))
     = 10 \<and>
   1 \<in> set (intervals (step ''wf'' (ExecuteSettles (Resolved (Some example_success))) awaiting_world)) \<and>
   set (intervals (step ''wf'' (IntervalFires 1)
      (step ''wf'' (ExecuteSettles (Resolved (Some example_success))) awaiting_world))) = {}"
  using ticker_stops_only_in_callback [of 1 "run ''wf'' failure_events ready_world" "''wf''"
      "IntervalFires 1"]
    ticker_stops_only_in_callback [of 1
      "step ''wf'' (ExecuteSettles (Resolved (Some example_success))) awaiting_world" "''wf''"
      "IntervalFires 1"]
  by (simp add: examples handlers setters Let_def)

subsection \<open>The ticker's steps and its cap\<close>

lemma fire_on_scale:
  assumes "on_ticker_scale w"
  shows "on_ticker_scale (step wid (IntervalFires i) w)"
proof -
  from assms have "uploadProgress (comp w) < 95 \<Longrightarrow> uploadProgress (comp w) + 5 \<le> 95"
    unfolding on_ticker_scale_def by presburger
  with assms show ?thesis
    by (auto simp: on_ticker_scale_def interval_callback_def clearInterval_def setters)
qed

lemma step_on_scale:
  assumes "on_ticker_scale w" and "\<not> succeeds e"
  shows "on_ticker_scale (step wid e w)"
proof (cases e)
  case (IntervalFires i)
  with assms(1) show ?thesis using fire_on_scale by blast
next
  case (ExecuteSettles settled)
  with assms show ?thesis
    by (cases settled)
       (auto simp: on_ticker_scale_def full_success_def handlers setters Let_def split: splits)
qed (use assms in \<open>auto simp: on_ticker_scale_def handlers setters Let_def split: splits\<close>)

lemma run_on_scale:
  "on_ticker_scale w \<Longrightarrow> \<forall>e\<in>set es. \<not> succeeds e \<Longrightarrow> on_ticker_scale (run wid es w)"
  by (induction es arbitrary: w) (simp_all add: step_on_scale)

lemma fires_when_cleared:
  "i \<notin> set (intervals w) \<Longrightarrow> run wid (replicate n (IntervalFires i)) w = w"
  by (induction n) simp_all

lemma fires_from:
  "i \<in> set (intervals w) \<Longrightarrow> uploadProgress (comp w) = 5 * int k \<Longrightarrow> k \<le> 19 \<Longrightarrow>
   uploadProgress (comp (run wid (replicate n (IntervalFires i)) w)) = min (5 * int (k + n)) 95"
proof (induction n arbitrary: w k)
  case 0
  then show ?case by simp
next
  case (Suc n)
  show ?case
  proof (cases "k = 19")
    case True
    with Suc.prems have p: "uploadProgress (comp w) = 95" by simp
    let ?w1 = "step wid (IntervalFires i) w"
    have "i \<notin> set (intervals ?w1)" "uploadProgress (comp ?w1) = 95"
      using Suc.prems(1) p by (simp_all add: interval_callback_def clearInterval_def setters)
    with fires_when_cleared [of i ?w1 wid n] True show ?thesis by simp
  next
    case False
    with Suc.prems have k: "Suc k \<le> 19" and p: "uploadProgress (comp w) < 95" by simp_all
    let ?w1 = "step wid (IntervalFires i) w"
    have 1: "i \<in> set (intervals ?w1)" and 2: "uploadProgress (comp ?w1) = 5 * int (Suc k)"
      using Suc.prems(1,2) p by (simp_all add: interval_callback_def setters)
    from Suc.IH [OF 1 2 k] show ?thesis by simp
  qed
qed

text \<open>
  C8. A submit with a file resets the progress to 0 and registers a timer with a period
  of 500 ms. After \<open>n\<close> firings of that timer the progress is \<open>5 * n\<close>, capped at 95.
  Whatever events follow the submit (firings of any timer, clicks, calls settling),
  the progress is at most 95 as long as no remote call has resolved as a full success:
  only the success branch sets 100. In any state, a firing of a live timer adds exactly
  5 when the progress is below 95 and leaves it as it is otherwise.
\<close>

theorem progress_ticker:
  assumes "inputFile (comp w) = Some file"
  shows "uploadProgress (comp (step wid GenerateImage w)) = 0
     \<and> next_interval w \<in> set (intervals (step wid GenerateImage w))
     \<and> SetInterval (next_interval w) 500 \<in> set (effects (step wid GenerateImage w))
     \<and> uploadProgress (comp (run wid (replicate n (IntervalFires (next_interval w)))
          (step wid GenerateImage w))) = min (5 * int n) 95
     \<and> ((\<forall>e\<in>set es. \<not> succeeds e) \<longrightarrow>
          uploadProgress (comp (run wid es (step wid GenerateImage w))) \<le> 95)
     \<and> (i \<in> set (intervals v) \<longrightarrow>
          uploadProgress (comp (step wid (IntervalFires i) v)) =
            (if uploadProgress (comp v) < 95 then uploadProgress (comp v) + 5
             else uploadProgress (comp v)))"
proof -
  define w1 where "w1 = step wid GenerateImage w"
  have w1: "uploadProgress (comp w1) = 0" "next_interval w \<in> set (intervals w1)"
    "SetInterval (next_interval w) 500 \<in> set (effects w1)"
    unfolding w1_def generate_with_file [OF assms] by simp_all
  have ticks: "uploadProgress (comp (run wid (replicate n (IntervalFires (next_interval w))) w1))
      = min (5 * int n) 95"
    using fires_from [of "next_interval w" w1 0 wid n] w1 by simp
  have "on_ticker_scale w1" using w1(1) by (simp add: on_ticker_scale_def)
  then have bound:
    "(\<forall>e\<in>set es. \<not> succeeds e) \<longrightarrow> uploadProgress (comp (run wid es w1)) \<le> 95"
    using run_on_scale [of w1 es wid] by (auto simp: on_ticker_scale_def)
  have firing: "i \<in> set (intervals v) \<longrightarrow>
          uploadProgress (comp (step wid (IntervalFires i) v)) =
            (if uploadProgress (comp v) < 95 then uploadProgress (comp v) + 5
             else uploadProgress (comp v))"
    by (simp add: interval_callback_def clearInterval_def setters)
  show ?thesis
    unfolding w1_def [symmetric] using w1 ticks bound firing by simp
qed

theorem progress_ticker_witness:
  "inputFile (comp ready_world) = Some example_file \<and>
   uploadProgress (comp (step ''wf'' GenerateImage ready_world)) = 0 \<and>
   uploadProgress (comp (run ''wf'' (replicate 3 (IntervalFires 1))
      (step ''wf'' GenerateImage ready_world))) = 15 \<and>
   uploadProgress (comp (run ''wf'' (replicate 25 (IntervalFires 1))
      (step ''wf'' GenerateImage ready_world))) = 95 \<and>
   uploadProgress (comp (run ''wf''
      [IntervalFires 1, HandleCancel, ExecuteSettles (Resolved (Some example_failure)), IntervalFires 1]
      (step ''wf'' GenerateImage ready_world))) \<le> 95 \<and>
   1 \<in> set (intervals awaiting_world) \<and>
   uploadProgress (comp (step ''wf'' (IntervalFires 1) awaiting_world)) = 5"
  using progress_ticker [of ready_world example_file "''wf''" 3
      "[IntervalFires 1, HandleCancel, ExecuteSettles (Resolved (Some example_failure)),
        IntervalFires 1]" 1 awaiting_world]
    progress_ticker [of ready_world example_file "''wf''" 25 "[]" 1 awaiting_world]
  by (simp add: full_success_def examples handlers setters Let_def)

end
